theory Spec2Isabelle
  imports Main
begin

section \<open>The logging facility of \<^verbatim>\<open>src/mavsdk/core/log.h\<close>\<close>

text \<open>
  The header defines a process-wide mutex \<^verbatim>\<open>log_mutex_\<close>, a file stream
  \<^verbatim>\<open>log_file\<close>, the functions \<^verbatim>\<open>set_log_file\<close> and \<^verbatim>\<open>get_log_stream\<close>, the
  macro \<^verbatim>\<open>FILENAME\<close> and the class \<^verbatim>\<open>LogDetailed\<close> whose destructor dispatches
  one log line. The model follows one thread of the program: its state is the part of
  the process the header reads and writes, and every function of the header is a
  function on that state.
\<close>

subsection \<open>Data\<close>

text \<open>
  \<^verbatim>\<open>log::Level\<close> comes from \<^verbatim>\<open>log_callback.h\<close>; its four values are the ones the
  switch statements of the destructor name. \<^verbatim>\<open>Color\<close> is the enum of line 61.
\<close>

datatype Level = Debug | Info | Warn | Err

datatype Color = Red | Green | Yellow | Blue | Gray | Reset

datatype android_prio =
  ANDROID_LOG_DEBUG | ANDROID_LOG_INFO | ANDROID_LOG_WARN | ANDROID_LOG_ERROR

text \<open>
  A stream reference as \<^verbatim>\<open>get_log_stream\<close> returns it, and the place a write ends up:
  the console or the file a stream is attached to.
\<close>

datatype ostream = StdCout | LogFile

datatype sink = Console | File string

text \<open>
  What the process does to the outside, in program order: \<^verbatim>\<open>set_color\<close> acting on the
  console, one insertion of text into a stream, a flush of a stream, and one call of
  \<^verbatim>\<open>__android_log_print\<close>.
\<close>

datatype event =
    SetColor Color
  | Write sink string
  | Flush sink
  | AndroidLog android_prio string string

text \<open>
  \<^verbatim>\<open>std::ofstream\<close>: the file it is attached to (\<^verbatim>\<open>is_open()\<close> holds when there is
  one) and whether \<^verbatim>\<open>fail()\<close> holds (failbit or badbit set).
\<close>

record ofstream =
  attached :: "string option"
  failed :: bool

text \<open>
  The state: whether the running thread owns \<^verbatim>\<open>log_mutex_\<close>, the stream
  \<^verbatim>\<open>log_file\<close>, the contents of the files of the file system, and the events so far.
\<close>

record state =
  mutex_held :: bool
  log_file :: ofstream
  fs :: "string \<Rightarrow> string option"
  trace :: "event list"

text \<open>
  What the header takes from its build and its surroundings. \<^verbatim>\<open>ANDROID\<close> and
  \<^verbatim>\<open>WINDOWS\<close> are the preprocessor symbols of lines 9, 19 and 93. \<open>get_callback\<close> is
  the interception function that \<^verbatim>\<open>log::get_callback()\<close> of \<^verbatim>\<open>log_callback.h\<close>
  returns, if one is registered. \<open>can_open\<close> says which paths the operating system
  opens for appending. \<open>relock\<close> is what \<^verbatim>\<open>std::mutex::lock\<close> does when the calling
  thread already owns the mutex: C++ leaves that undefined; on the usual
  implementations the call never returns (\<open>Blocks\<close>), an implementation that
  tolerates it lets the owner go on (\<open>Proceeds\<close>).
\<close>

datatype relock = Blocks | Proceeds

record env =
  ANDROID :: bool
  WINDOWS :: bool
  get_callback :: "(Level \<Rightarrow> string \<Rightarrow> string \<Rightarrow> int \<Rightarrow> bool) option"
  can_open :: "string \<Rightarrow> bool"
  relock :: relock

text \<open>
  A call either returns a value in a new state, or never returns (the thread waits for
  a mutex it owns); the state it hangs in is kept, so that what was written before
  can be read off.
\<close>

datatype 'a outcome = Done 'a state | Hang state

fun final :: "'a outcome \<Rightarrow> state" where
  "final (Done a st) = st"
| "final (Hang st) = st"

fun returns :: "'a outcome \<Rightarrow> bool" where
  "returns (Done a st) = True"
| "returns (Hang st) = False"

fun seq :: "(state \<Rightarrow> unit outcome) list \<Rightarrow> state \<Rightarrow> unit outcome" where
  "seq [] st = Done () st"
| "seq (c # cs) st = (case c st of Hang st' \<Rightarrow> Hang st' | Done u st' \<Rightarrow> seq cs st')"

subsection \<open>The macro \<^verbatim>\<open>FILENAME\<close> (lines 19 to 25)\<close>

text \<open>
  \<^verbatim>\<open>strrchr(s, c)\<close> points at the last occurrence of \<open>c\<close> in \<open>s\<close>, or is null: the
  model returns the rest of the string from that occurrence on.
\<close>

fun strrchr :: "string \<Rightarrow> char \<Rightarrow> string option" where
  "strrchr [] c = None"
| "strrchr (x # xs) c =
     (case strrchr xs c of
        Some p \<Rightarrow> Some p
      | None \<Rightarrow> if x = c then Some (x # xs) else None)"

definition FILENAME :: "env \<Rightarrow> string \<Rightarrow> string" where
  "FILENAME e file =
     (if \<not> WINDOWS e
      then (case strrchr file (CHR ''/'') of Some p \<Rightarrow> tl p | None \<Rightarrow> file)
      else file)"

subsection \<open>Text of numbers and of the time\<close>

definition digit :: "nat \<Rightarrow> char" where
  "digit n = ''0123456789'' ! (n mod 10)"

fun dec_nat :: "nat \<Rightarrow> string" where
  "dec_nat n = (if n < 10 then [digit n] else dec_nat (n div 10) @ [digit n])"

declare dec_nat.simps [simp del]

text \<open>\<^verbatim>\<open>os << std::dec << n\<close> for an \<^verbatim>\<open>int\<close>.\<close>

definition dec :: "int \<Rightarrow> string" where
  "dec n = (if n < 0 then CHR ''-'' # dec_nat (nat (- n)) else dec_nat (nat n))"

text \<open>
  The fields of \<^verbatim>\<open>struct tm\<close> that the format reads; \<^verbatim>\<open>localtime\<close> fills them with
  an hour of 0 to 23, a minute of 0 to 59 and a second of 0 to 60.
\<close>

record tm =
  tm_hour :: nat
  tm_min :: nat
  tm_sec :: nat

definition two_digits :: "nat \<Rightarrow> string" where
  "two_digits n = [digit (n div 10), digit n]"

definition hour12 :: "nat \<Rightarrow> nat" where
  "hour12 h = (if h mod 12 = 0 then 12 else h mod 12)"

text \<open>
  \<^verbatim>\<open>strftime\<close> belongs to the C library, not to the repository; it is modelled after the
  C standard (7.27.3.5) for the conversion specifiers of hours, minutes and seconds:
  ordinary characters are copied, \<^verbatim>\<open>%H\<close> is the hour on the 24-hour clock (00 to 23),
  \<^verbatim>\<open>%I\<close> the hour on the 12-hour clock (01 to 12), \<^verbatim>\<open>%M\<close> the minute, \<^verbatim>\<open>%S\<close> the
  second, each as two digits, and \<^verbatim>\<open>%%\<close> a percent sign. The call returns nothing
  when the text and its terminator exceed the size of the buffer.
\<close>

fun strftime_format :: "string \<Rightarrow> tm \<Rightarrow> string" where
  "strftime_format [] t = []"
| "strftime_format [c] t = [c]"
| "strftime_format (c # d # fmt) t =
     (if c = CHR ''%'' then
        (if d = CHR ''H'' then two_digits (tm_hour t)
         else if d = CHR ''I'' then two_digits (hour12 (tm_hour t))
         else if d = CHR ''M'' then two_digits (tm_min t)
         else if d = CHR ''S'' then two_digits (tm_sec t)
         else if d = CHR ''%'' then ''%''
         else []) @ strftime_format fmt t
      else c # strftime_format (d # fmt) t)"

definition strftime :: "nat \<Rightarrow> string \<Rightarrow> tm \<Rightarrow> string option" where
  "strftime maxsize fmt t =
     (if length (strftime_format fmt t) + 1 \<le> maxsize then Some (strftime_format fmt t)
      else None)"

text \<open>
  Lines 133 and 134: \<^verbatim>\<open>char time_buffer[10]{}\<close> filled by
  \<^verbatim>\<open>strftime(time_buffer, sizeof(time_buffer), "%I:%M:%S", timeinfo)\<close>. The buffer starts
  as the empty string, which is what the model leaves in it when the call returns
  nothing.
\<close>

definition time_buffer :: "tm \<Rightarrow> string" where
  "time_buffer timeinfo =
     (case strftime 10 ''%I:%M:%S'' timeinfo of Some text \<Rightarrow> text | None \<Rightarrow> [])"

subsection \<open>The mutex and the lock guard\<close>

text \<open>
  \<^verbatim>\<open>std::lock_guard<std::mutex> lock(log_mutex_)\<close> locks at its construction and
  unlocks at the end of its scope, which is the body here. When the thread already
  owns \<^verbatim>\<open>log_mutex_\<close>, the lock is the undefined case: under \<open>Blocks\<close> the thread
  waits for itself for ever; under \<open>Proceeds\<close> the nested guard takes and gives back
  nothing and the outer owner keeps the mutex.
\<close>

definition lock_guard :: "env \<Rightarrow> (state \<Rightarrow> 'a outcome) \<Rightarrow> state \<Rightarrow> 'a outcome" where
  "lock_guard e body st =
     (if mutex_held st then
        (case relock e of Blocks \<Rightarrow> Hang st | Proceeds \<Rightarrow> body st)
      else
        (case body (st\<lparr>mutex_held := True\<rparr>) of
           Done a st' \<Rightarrow> Done a (st'\<lparr>mutex_held := False\<rparr>)
         | Hang st' \<Rightarrow> Hang st'))"

subsection \<open>Streams\<close>

definition is_open :: "ofstream \<Rightarrow> bool" where
  "is_open f = (attached f \<noteq> None)"

definition contents :: "state \<Rightarrow> string \<Rightarrow> string" where
  "contents st p = (case fs st p of None \<Rightarrow> [] | Some c \<Rightarrow> c)"

text \<open>
  \<^verbatim>\<open>log_file.open(path, std::ios::out | std::ios::app)\<close>. A stream that is already
  open refuses (\<^verbatim>\<open>basic_filebuf::open\<close> returns null when \<^verbatim>\<open>is_open()\<close>) and the
  failbit is set; so it is when the operating system refuses the path. On success the
  state flags are cleared, a missing file is created empty, and an existing one keeps
  its contents: append mode does not truncate.
\<close>

definition ofstream_open :: "env \<Rightarrow> string \<Rightarrow> state \<Rightarrow> state" where
  "ofstream_open e path st =
     (if is_open (log_file st) then st\<lparr>log_file := (log_file st)\<lparr>failed := True\<rparr>\<rparr>
      else if can_open e path then
        st\<lparr>log_file := \<lparr>attached = Some path, failed = False\<rparr>,
           fs := (fs st)(path \<mapsto> contents st path)\<rparr>
      else st\<lparr>log_file := (log_file st)\<lparr>failed := True\<rparr>\<rparr>)"

text \<open>
  \<^verbatim>\<open>os << text\<close>. \<^verbatim>\<open>std::cout\<close> takes every insertion. An insertion into a file stream
  whose \<^verbatim>\<open>fail()\<close> holds does nothing (the sentry refuses); into a stream with no file
  it fails; otherwise the text goes to the end of the file.
\<close>

definition insert_text :: "ostream \<Rightarrow> string \<Rightarrow> state \<Rightarrow> state" where
  "insert_text os x st =
     (case os of
        StdCout \<Rightarrow> st\<lparr>trace := trace st @ [Write Console x]\<rparr>
      | LogFile \<Rightarrow>
          (if failed (log_file st) then st
           else (case attached (log_file st) of
                   None \<Rightarrow> st\<lparr>log_file := (log_file st)\<lparr>failed := True\<rparr>\<rparr>
                 | Some p \<Rightarrow>
                     st\<lparr>fs := (fs st)(p \<mapsto> contents st p @ x),
                        trace := trace st @ [Write (File p) x]\<rparr>)))"

text \<open>\<^verbatim>\<open>os << x1 << ... << xn\<close>, from left to right.\<close>

definition inserts :: "ostream \<Rightarrow> string list \<Rightarrow> state \<Rightarrow> state" where
  "inserts os xs st = foldl (\<lambda>s x. insert_text os x s) st xs"

definition flush :: "ostream \<Rightarrow> state \<Rightarrow> state" where
  "flush os st =
     (case os of
        StdCout \<Rightarrow> st\<lparr>trace := trace st @ [Flush Console]\<rparr>
      | LogFile \<Rightarrow>
          (if failed (log_file st) then st
           else (case attached (log_file st) of
                   None \<Rightarrow> st
                 | Some p \<Rightarrow> st\<lparr>trace := trace st @ [Flush (File p)]\<rparr>)))"

definition newline :: string where
  "newline = [CHR 0x0A]"

text \<open>\<^verbatim>\<open>os << std::endl\<close>: a newline, then a flush.\<close>

definition endl :: "ostream \<Rightarrow> state \<Rightarrow> state" where
  "endl os st = flush os (insert_text os newline st)"

subsection \<open>\<^verbatim>\<open>set_log_file\<close> and \<^verbatim>\<open>get_log_stream\<close> (lines 41 to 57)\<close>

definition set_log_file :: "env \<Rightarrow> string \<Rightarrow> state \<Rightarrow> unit outcome" where
  "set_log_file e file_path =
     lock_guard e (\<lambda>st.
       let st1 = ofstream_open e file_path st;
           st2 = (if \<not> is_open (log_file st1)
                  then endl StdCout
                         (inserts StdCout [''Failed to open log file: '', file_path] st1)
                  else st1)
       in Done () (endl StdCout (inserts StdCout [''Opened log file: '', file_path] st2)))"

definition get_log_stream :: "env \<Rightarrow> state \<Rightarrow> ostream outcome" where
  "get_log_stream e =
     lock_guard e (\<lambda>st. Done (if is_open (log_file st) then LogFile else StdCout) st)"

text \<open>The active sink: where \<^verbatim>\<open>get_log_stream\<close> points when it is asked.\<close>

definition active_sink :: "state \<Rightarrow> sink" where
  "active_sink st = (case attached (log_file st) of None \<Rightarrow> Console | Some p \<Rightarrow> File p)"

subsection \<open>\<^verbatim>\<open>set_color\<close> and the platform log\<close>

text \<open>
  Modelled from the spec: \<^verbatim>\<open>set_color\<close> is declared at line 63 and defined outside the
  header. The spec (4.3) says that it maps a semantic color (or Reset) to the
  terminal's escape sequence and writes it to the console; the model records the call
  as an event on the console.
\<close>

definition set_color :: "Color \<Rightarrow> state \<Rightarrow> unit outcome" where
  "set_color c st = Done () (st\<lparr>trace := trace st @ [SetColor c]\<rparr>)"

text \<open>\<^verbatim>\<open>__android_log_print(prio, tag, "%s", text)\<close>.\<close>

definition android_log_print :: "android_prio \<Rightarrow> string \<Rightarrow> string \<Rightarrow> state \<Rightarrow> unit outcome" where
  "android_log_print prio tag x st = Done () (st\<lparr>trace := trace st @ [AndroidLog prio tag x]\<rparr>)"

subsection \<open>The class \<^verbatim>\<open>LogDetailed\<close> (lines 65 to 206)\<close>

text \<open>
  The fields of a record: \<^verbatim>\<open>_log_level\<close>, the text of the string stream \<^verbatim>\<open>_s\<close>,
  \<^verbatim>\<open>_caller_filename\<close> and \<^verbatim>\<open>_caller_filenumber\<close>. The member \<^verbatim>\<open>_lock_guard\<close> is the
  guard around the record's lifetime, see \<open>log_statement\<close>.
\<close>

record LogDetailed =
  log_level :: Level
  s_str :: string
  caller_filename :: string
  caller_filenumber :: int

definition LogDetailed_ctor :: "string \<Rightarrow> int \<Rightarrow> LogDetailed" where
  "LogDetailed_ctor filename filenumber =
     \<lparr>log_level = Debug, s_str = [], caller_filename = filename,
      caller_filenumber = filenumber\<rparr>"

definition LogDebugDetailed :: "string \<Rightarrow> int \<Rightarrow> LogDetailed" where
  "LogDebugDetailed filename filenumber = (LogDetailed_ctor filename filenumber)\<lparr>log_level := Debug\<rparr>"

definition LogInfoDetailed :: "string \<Rightarrow> int \<Rightarrow> LogDetailed" where
  "LogInfoDetailed filename filenumber = (LogDetailed_ctor filename filenumber)\<lparr>log_level := Info\<rparr>"

definition LogWarnDetailed :: "string \<Rightarrow> int \<Rightarrow> LogDetailed" where
  "LogWarnDetailed filename filenumber = (LogDetailed_ctor filename filenumber)\<lparr>log_level := Warn\<rparr>"

definition LogErrDetailed :: "string \<Rightarrow> int \<Rightarrow> LogDetailed" where
  "LogErrDetailed filename filenumber = (LogDetailed_ctor filename filenumber)\<lparr>log_level := Err\<rparr>"

text \<open>\<^verbatim>\<open>operator<<\<close> of the record (line 74), for a value whose text is \<open>x\<close>.\<close>

definition shift :: "LogDetailed \<Rightarrow> string \<Rightarrow> LogDetailed" where
  "shift r x = r\<lparr>s_str := s_str r @ x\<rparr>"

text \<open>
  \<^verbatim>\<open>get_log_stream() << x1 << ... << xn\<close>: the stream is asked for once, then the
  texts are inserted. \<^verbatim>\<open>get_log_stream().flush()\<close> likewise.
\<close>

definition put :: "env \<Rightarrow> string list \<Rightarrow> state \<Rightarrow> unit outcome" where
  "put e xs st =
     (case get_log_stream e st of
        Hang st' \<Rightarrow> Hang st'
      | Done os st' \<Rightarrow> Done () (inserts os xs st'))"

definition flush_log_stream :: "env \<Rightarrow> state \<Rightarrow> unit outcome" where
  "flush_log_stream e st =
     (case get_log_stream e st of
        Hang st' \<Rightarrow> Hang st'
      | Done os st' \<Rightarrow> Done () (flush os st'))"

text \<open>
  The destructor after the interception test: lines 93 to 159. \<open>now\<close> is the local
  time that \<^verbatim>\<open>time\<close> and \<^verbatim>\<open>localtime\<close> give at line 132.
\<close>

definition output_path :: "env \<Rightarrow> tm \<Rightarrow> LogDetailed \<Rightarrow> state \<Rightarrow> unit outcome" where
  "output_path e now r =
     (if ANDROID e then
        (case log_level r of
           Debug \<Rightarrow> android_log_print ANDROID_LOG_DEBUG ''Mavsdk'' (s_str r)
         | Info \<Rightarrow> android_log_print ANDROID_LOG_INFO ''Mavsdk'' (s_str r)
         | Warn \<Rightarrow> android_log_print ANDROID_LOG_WARN ''Mavsdk'' (s_str r)
         | Err \<Rightarrow> android_log_print ANDROID_LOG_ERROR ''Mavsdk'' (s_str r))
      else
        seq [
          (case log_level r of
             Debug \<Rightarrow> set_color Green
           | Info \<Rightarrow> set_color Blue
           | Warn \<Rightarrow> set_color Yellow
           | Err \<Rightarrow> set_color Red),
          put e [''['', time_buffer now],
          (case log_level r of
             Debug \<Rightarrow> put e [''|Debug] '']
           | Info \<Rightarrow> put e [''|Info ] '']
           | Warn \<Rightarrow> put e [''|Warn ] '']
           | Err \<Rightarrow> put e [''|Error] '']),
          set_color Reset,
          put e [s_str r],
          put e ['' ('', caller_filename r, '':'', dec (caller_filenumber r), '')''],
          put e [newline],
          flush_log_stream e])"

text \<open>The destructor (lines 86 to 160): the interception test, then the output.\<close>

definition handled :: "env \<Rightarrow> LogDetailed \<Rightarrow> bool" where
  "handled e r =
     (case get_callback e of
        None \<Rightarrow> False
      | Some cb \<Rightarrow> cb (log_level r) (s_str r) (caller_filename r) (caller_filenumber r))"

definition LogDetailed_dtor :: "env \<Rightarrow> tm \<Rightarrow> LogDetailed \<Rightarrow> state \<Rightarrow> unit outcome" where
  "LogDetailed_dtor e now r st =
     (if handled e r then Done () st else output_path e now r st)"

text \<open>
  One statement \<^verbatim>\<open>LogInfo() << x1 << ... << xn;\<close> in the file \<open>file\<close> at line \<open>line\<close>:
  the macro builds the record from \<^verbatim>\<open>FILENAME\<close> and \<^verbatim>\<open>__LINE__\<close>, the constructor's
  \<^verbatim>\<open>_lock_guard\<close> takes \<^verbatim>\<open>log_mutex_\<close>, the values are shifted in, and at the end of
  the statement the destructor runs, after which the guard releases the mutex.
  \<open>mk\<close> is one of the four constructors.
\<close>

definition log_statement ::
  "env \<Rightarrow> tm \<Rightarrow> (string \<Rightarrow> int \<Rightarrow> LogDetailed) \<Rightarrow> string \<Rightarrow> int \<Rightarrow> string list \<Rightarrow> state
   \<Rightarrow> unit outcome" where
  "log_statement e now mk file line xs =
     lock_guard e (LogDetailed_dtor e now (foldl shift (mk (FILENAME e file) line) xs))"

subsection \<open>A thread's uses of the header\<close>

text \<open>
  What a thread can do with the header: call \<^verbatim>\<open>set_log_file\<close>, call
  \<^verbatim>\<open>get_log_stream\<close>, and write a log statement with one of the four macros. A run is
  a sequence of such calls, each with the surroundings and the local time of its
  moment; when a call never returns, the thread does nothing after it.
\<close>

datatype call =
    SetLogFile string
  | GetLogStream
  | LogStatement Level string int "string list"

definition ctor_of :: "Level \<Rightarrow> string \<Rightarrow> int \<Rightarrow> LogDetailed" where
  "ctor_of l =
     (case l of
        Debug \<Rightarrow> LogDebugDetailed
      | Info \<Rightarrow> LogInfoDetailed
      | Warn \<Rightarrow> LogWarnDetailed
      | Err \<Rightarrow> LogErrDetailed)"

fun exec :: "env \<Rightarrow> tm \<Rightarrow> call \<Rightarrow> state \<Rightarrow> unit outcome" where
  "exec e now (SetLogFile path) st = set_log_file e path st"
| "exec e now GetLogStream st =
     (case get_log_stream e st of Hang st' \<Rightarrow> Hang st' | Done os st' \<Rightarrow> Done () st')"
| "exec e now (LogStatement l file line xs) st = log_statement e now (ctor_of l) file line xs st"

fun run :: "(env \<times> tm \<times> call) list \<Rightarrow> state \<Rightarrow> unit outcome" where
  "run [] st = Done () st"
| "run ((e, now, c) # cs) st =
     (case exec e now c st of Hang st' \<Rightarrow> Hang st' | Done u st' \<Rightarrow> run cs st')"

subsection \<open>The words of the specification\<close>

text \<open>
  The definitions of this subsection are written from the specification, to be compared
  with what the code above does: the colour and the fixed-width label of a level, the
  platform priority of a level, and the line
  \<^verbatim>\<open>[HH:MM:SS|<LevelLabel>] <message> (<file>:<line>)\<close> with its newline.
\<close>

definition spec_color :: "Level \<Rightarrow> Color" where
  "spec_color l = (case l of Debug \<Rightarrow> Green | Info \<Rightarrow> Blue | Warn \<Rightarrow> Yellow | Err \<Rightarrow> Red)"

definition spec_label :: "Level \<Rightarrow> string" where
  "spec_label l =
     (case l of Debug \<Rightarrow> ''Debug'' | Info \<Rightarrow> ''Info '' | Warn \<Rightarrow> ''Warn '' | Err \<Rightarrow> ''Error'')"

definition spec_prio :: "Level \<Rightarrow> android_prio" where
  "spec_prio l =
     (case l of
        Debug \<Rightarrow> ANDROID_LOG_DEBUG
      | Info \<Rightarrow> ANDROID_LOG_INFO
      | Warn \<Rightarrow> ANDROID_LOG_WARN
      | Err \<Rightarrow> ANDROID_LOG_ERROR)"

definition spec_line :: "tm \<Rightarrow> LogDetailed \<Rightarrow> string" where
  "spec_line now r =
     ''['' @ time_buffer now @ ''|'' @ spec_label (log_level r) @ ''] '' @ s_str r @
     '' ('' @ caller_filename r @ '':'' @ dec (caller_filenumber r) @ '')'' @ newline"

subsection \<open>Reading a state and a trace\<close>

text \<open>What was written to a sink, in order.\<close>

fun written :: "sink \<Rightarrow> event list \<Rightarrow> string" where
  "written k [] = []"
| "written k (Write k' x # evs) = (if k' = k then x @ written k evs else written k evs)"
| "written k (ev # evs) = written k evs"

text \<open>The events after the first colour reset of a trace.\<close>

definition after_reset :: "event list \<Rightarrow> event list" where
  "after_reset evs = drop 1 (dropWhile (\<lambda>ev. ev \<noteq> SetColor Reset) evs)"

text \<open>
  The events of one dispatch to the sink \<open>k\<close>, in the order of lines 113 to 158, and
  the first event of the output path.
\<close>

definition line_events :: "sink \<Rightarrow> tm \<Rightarrow> LogDetailed \<Rightarrow> event list" where
  "line_events k now r =
     [SetColor (spec_color (log_level r)),
      Write k ''['', Write k (time_buffer now),
      Write k (''|'' @ spec_label (log_level r) @ ''] ''),
      SetColor Reset,
      Write k (s_str r),
      Write k '' ('', Write k (caller_filename r), Write k '':'',
      Write k (dec (caller_filenumber r)), Write k '')'',
      Write k newline,
      Flush k]"

definition first_output :: "env \<Rightarrow> LogDetailed \<Rightarrow> event" where
  "first_output e r =
     (if ANDROID e then AndroidLog (spec_prio (log_level r)) ''Mavsdk'' (s_str r)
      else SetColor (spec_color (log_level r)))"

text \<open>The two notices of \<^verbatim>\<open>set_log_file\<close>, as events on the console.\<close>

definition notice :: "string \<Rightarrow> string \<Rightarrow> event list" where
  "notice what path =
     [Write Console what, Write Console path, Write Console newline, Flush Console]"

text \<open>
  A lock guard on \<^verbatim>\<open>log_mutex_\<close> gets through: the thread does not own the mutex, or
  the implementation lets the owner lock again.
\<close>

definition may_lock :: "env \<Rightarrow> state \<Rightarrow> bool" where
  "may_lock e st = (if mutex_held st then relock e = Proceeds else True)"

text \<open>The active stream takes insertions: it is the console, or a file stream in good state.\<close>

definition sink_good :: "state \<Rightarrow> bool" where
  "sink_good st = (if is_open (log_file st) then \<not> failed (log_file st) else True)"

subsection \<open>Concrete surroundings and states\<close>

text \<open>
  A desktop build on a system whose mutex blocks on a second lock by its owner, the same
  with a mutex that lets the owner through, and a Windows build. The only path the
  operating system opens is \<^verbatim>\<open>mavsdk.log\<close>. \<open>boot\<close> is the state at program
  start, \<open>logging\<close> a state with \<^verbatim>\<open>mavsdk.log\<close> open, which holds one earlier line.
\<close>

definition linux :: env where
  "linux = \<lparr>ANDROID = False, WINDOWS = False, get_callback = None,
            can_open = (\<lambda>p. p = ''mavsdk.log''), relock = Blocks\<rparr>"

definition tolerant :: env where
  "tolerant = linux\<lparr>relock := Proceeds\<rparr>"

definition windows :: env where
  "windows = linux\<lparr>WINDOWS := True\<rparr>"

definition boot :: state where
  "boot = \<lparr>mutex_held = False, log_file = \<lparr>attached = None, failed = False\<rparr>,
           fs = (\<lambda>p. None), trace = []\<rparr>"

definition logging :: state where
  "logging = \<lparr>mutex_held = False, log_file = \<lparr>attached = Some ''mavsdk.log'', failed = False\<rparr>,
              fs = (\<lambda>p. if p = ''mavsdk.log'' then Some ''earlier'' else None), trace = []\<rparr>"

definition afternoon :: tm where
  "afternoon = \<lparr>tm_hour = 15, tm_min = 4, tm_sec = 9\<rparr>"

definition silence :: "Level \<Rightarrow> string \<Rightarrow> string \<Rightarrow> int \<Rightarrow> bool" where
  "silence l m f n = True"

section \<open>Lemmas about the operations\<close>

subsection \<open>The time text\<close>

lemma strftime_fits:
  "strftime 10 ''%I:%M:%S'' t =
     Some (two_digits (hour12 (tm_hour t)) @ '':'' @ two_digits (tm_min t) @ '':'' @
           two_digits (tm_sec t))"
  by (simp add: strftime_def two_digits_def)

lemma time_buffer_eq:
  "time_buffer t =
     two_digits (hour12 (tm_hour t)) @ '':'' @ two_digits (tm_min t) @ '':'' @
     two_digits (tm_sec t)"
  by (simp add: time_buffer_def strftime_fits)

subsection \<open>\<^verbatim>\<open>FILENAME\<close>\<close>

lemma strrchr_None: "strrchr s c = None \<longleftrightarrow> c \<notin> set s"
  by (induction s) (auto split: option.splits)

lemma strrchr_Some:
  "strrchr s c = Some p \<Longrightarrow> \<exists>d q. s = d @ c # q \<and> p = c # q \<and> c \<notin> set q"
proof (induction s arbitrary: p)
  case Nil
  then show ?case by simp
next
  case (Cons x xs)
  show ?case
  proof (cases "strrchr xs c")
    case None
    with Cons.prems have "x = c" and "p = x # xs"
      by (auto split: if_splits)
    moreover from None have "c \<notin> set xs"
      by (simp add: strrchr_None)
    ultimately show ?thesis
      by (intro exI [of _ "[]"] exI [of _ xs]) simp
  next
    case (Some p')
    with Cons.prems have "p = p'" by simp
    with Some Cons.IH obtain d q where "xs = d @ c # q" "p = c # q" "c \<notin> set q"
      by blast
    then show ?thesis
      by (intro exI [of _ "x # d"] exI [of _ q]) simp
  qed
qed

subsection \<open>The lock guard and \<^verbatim>\<open>get_log_stream\<close>\<close>

lemma get_log_stream_returns:
  "may_lock e st \<Longrightarrow>
   get_log_stream e st = Done (if is_open (log_file st) then LogFile else StdCout) st"
  by (simp add: get_log_stream_def lock_guard_def may_lock_def split: if_splits)

lemma get_log_stream_hangs:
  "\<not> may_lock e st \<Longrightarrow> get_log_stream e st = Hang st"
  by (cases "relock e") (simp_all add: get_log_stream_def lock_guard_def may_lock_def split: if_splits)

lemma may_lock_upd [simp]:
  "may_lock e (st\<lparr>trace := t\<rparr>) = may_lock e st"
  "may_lock e (st\<lparr>fs := f\<rparr>) = may_lock e st"
  "may_lock e (st\<lparr>log_file := l\<rparr>) = may_lock e st"
  by (simp_all add: may_lock_def)

lemma contents_upd [simp]:
  "contents (st\<lparr>trace := t\<rparr>) q = contents st q"
  "contents (st\<lparr>mutex_held := b\<rparr>) q = contents st q"
  "contents (st\<lparr>log_file := l\<rparr>) q = contents st q"
  "contents (st\<lparr>fs := (fs st)(p \<mapsto> c)\<rparr>) p = c"
  by (simp_all add: contents_def)

subsection \<open>Insertions\<close>

lemma inserts_console:
  "inserts StdCout xs st = st\<lparr>trace := trace st @ map (Write Console) xs\<rparr>"
  unfolding inserts_def
  by (induction xs arbitrary: st) (simp_all add: insert_text_def)

lemma inserts_file:
  "attached (log_file st) = Some p \<Longrightarrow> \<not> failed (log_file st) \<Longrightarrow>
   inserts LogFile xs st =
     (if xs = [] then st
      else st\<lparr>fs := (fs st)(p \<mapsto> contents st p @ concat xs),
              trace := trace st @ map (Write (File p)) xs\<rparr>)"
  unfolding inserts_def
proof (induction xs arbitrary: st)
  case Nil
  then show ?case by simp
next
  case (Cons x xs)
  then show ?case by (simp add: insert_text_def contents_def)
qed

lemma put_console:
  "may_lock e st \<Longrightarrow> attached (log_file st) = None \<Longrightarrow>
   put e xs st = Done () (st\<lparr>trace := trace st @ map (Write Console) xs\<rparr>)"
  by (simp add: put_def get_log_stream_returns is_open_def inserts_console)

lemma put_file:
  "may_lock e st \<Longrightarrow> attached (log_file st) = Some p \<Longrightarrow> \<not> failed (log_file st) \<Longrightarrow>
   xs \<noteq> [] \<Longrightarrow>
   put e xs st =
     Done () (st\<lparr>fs := (fs st)(p \<mapsto> contents st p @ concat xs),
                 trace := trace st @ map (Write (File p)) xs\<rparr>)"
  by (simp add: put_def get_log_stream_returns is_open_def inserts_file)

subsection \<open>The output path\<close>

lemma output_path_console:
  assumes "\<not> ANDROID e" and "may_lock e st" and "attached (log_file st) = None"
  shows "output_path e now r st =
           Done () (st\<lparr>trace := trace st @ line_events Console now r\<rparr>)"
  using assms
  by (cases "log_level r")
     (simp_all add: output_path_def set_color_def put_console flush_log_stream_def
        get_log_stream_returns is_open_def flush_def line_events_def spec_color_def
        spec_label_def)

lemma output_path_file:
  assumes "\<not> ANDROID e" and "may_lock e st" and "attached (log_file st) = Some p"
    and "\<not> failed (log_file st)"
  shows "output_path e now r st =
           Done () (st\<lparr>fs := (fs st)(p \<mapsto> contents st p @ spec_line now r),
                       trace := trace st @ line_events (File p) now r\<rparr>)"
  using assms
  by (cases "log_level r")
     (simp_all add: output_path_def set_color_def put_file flush_log_stream_def
        get_log_stream_returns is_open_def flush_def line_events_def spec_color_def
        spec_label_def spec_line_def)

lemma output_path_hangs:
  assumes "\<not> ANDROID e" and "\<not> may_lock e st"
  shows "output_path e now r st =
           Hang (st\<lparr>trace := trace st @ [SetColor (spec_color (log_level r))]\<rparr>)"
  using assms
  by (cases "log_level r")
     (simp_all add: output_path_def set_color_def put_def get_log_stream_hangs spec_color_def)

lemma output_path_android:
  assumes "ANDROID e"
  shows "output_path e now r st =
           Done () (st\<lparr>trace := trace st @ [AndroidLog (spec_prio (log_level r)) ''Mavsdk'' (s_str r)]\<rparr>)"
  using assms
  by (cases "log_level r") (simp_all add: output_path_def android_log_print_def spec_prio_def)

lemma written_append: "written k (xs @ ys) = written k xs @ written k ys"
  by (induction k xs rule: written.induct) simp_all

subsection \<open>\<^verbatim>\<open>set_log_file\<close>\<close>

lemma cout_notice:
  "endl StdCout (inserts StdCout [what, path] st) = st\<lparr>trace := trace st @ notice what path\<rparr>"
  by (simp add: endl_def flush_def insert_text_def inserts_console notice_def)

lemma lock_guard_hangs: "\<not> may_lock e st \<Longrightarrow> lock_guard e body st = Hang st"
  by (cases "relock e") (simp_all add: lock_guard_def may_lock_def split: if_splits)

lemma set_log_file_hangs: "\<not> may_lock e st \<Longrightarrow> set_log_file e path st = Hang st"
  by (simp add: set_log_file_def lock_guard_hangs)

lemma set_log_file_already_open:
  assumes "may_lock e st" and "is_open (log_file st)"
  shows "set_log_file e path st =
           Done () (st\<lparr>log_file := (log_file st)\<lparr>failed := True\<rparr>,
                       trace := trace st @ notice ''Opened log file: '' path\<rparr>)"
proof -
  from assms(2) obtain p where p: "attached (log_file st) = Some p"
    by (auto simp: is_open_def)
  show ?thesis
  proof (cases "mutex_held st")
    case True
    with assms(1) p show ?thesis
      by (simp add: set_log_file_def lock_guard_def may_lock_def ofstream_open_def cout_notice
          is_open_def Let_def)
  next
    case False
    with p show ?thesis
      by (simp add: set_log_file_def lock_guard_def ofstream_open_def cout_notice is_open_def
          Let_def)
  qed
qed

lemma set_log_file_opens:
  assumes "may_lock e st" and "\<not> is_open (log_file st)" and "can_open e path"
  shows "set_log_file e path st =
           Done () (st\<lparr>log_file := \<lparr>attached = Some path, failed = False\<rparr>,
                       fs := (fs st)(path \<mapsto> contents st path),
                       trace := trace st @ notice ''Opened log file: '' path\<rparr>)"
proof (cases "mutex_held st")
  case True
  with assms show ?thesis
    by (simp add: set_log_file_def lock_guard_def may_lock_def ofstream_open_def cout_notice
        is_open_def Let_def)
next
  case False
  with assms show ?thesis
    by (simp add: set_log_file_def lock_guard_def ofstream_open_def cout_notice is_open_def
        Let_def)
qed

lemma set_log_file_refused:
  assumes "may_lock e st" and "\<not> is_open (log_file st)" and "\<not> can_open e path"
  shows "set_log_file e path st =
           Done () (st\<lparr>log_file := (log_file st)\<lparr>failed := True\<rparr>,
                       trace := trace st @ notice ''Failed to open log file: '' path @
                                notice ''Opened log file: '' path\<rparr>)"
proof (cases "mutex_held st")
  case True
  with assms show ?thesis
    by (simp add: set_log_file_def lock_guard_def may_lock_def ofstream_open_def cout_notice
        is_open_def Let_def)
next
  case False
  with assms show ?thesis
    by (simp add: set_log_file_def lock_guard_def ofstream_open_def cout_notice is_open_def
        Let_def)
qed

lemma set_log_file_returns: "returns (set_log_file e path st) = may_lock e st"
proof (cases "may_lock e st")
  case False
  then show ?thesis by (simp add: set_log_file_hangs)
next
  case True
  then show ?thesis
    by (cases "is_open (log_file st)"; cases "can_open e path")
       (simp_all add: set_log_file_already_open set_log_file_opens set_log_file_refused)
qed

subsection \<open>A log statement\<close>

lemma log_statement_hangs:
  assumes "\<not> ANDROID e" and "relock e = Blocks"
    and "\<not> handled e (foldl shift (mk (FILENAME e file) line) xs)"
  shows "log_statement e now mk file line xs st =
           (if mutex_held st then Hang st
            else Hang (st\<lparr>mutex_held := True,
                         trace := trace st @
                           [SetColor (spec_color
                              (log_level (foldl shift (mk (FILENAME e file) line) xs)))]\<rparr>))"
  using assms
  by (simp add: log_statement_def lock_guard_def LogDetailed_dtor_def output_path_hangs
      may_lock_def)

subsection \<open>What every operation leaves alone\<close>

text \<open>
  Two properties of a step, for all states it starts in: it does not change the file
  that \<^verbatim>\<open>log_file\<close> is attached to, and it only adds events at the end of the trace.
\<close>

lemma final_lock_guard_attached:
  assumes "\<And>s. attached (log_file (final (body s))) = attached (log_file s)"
  shows "attached (log_file (final (lock_guard e body st))) = attached (log_file st)"
proof (cases "mutex_held st")
  case True
  with assms [of st] show ?thesis
    by (cases "relock e") (simp_all add: lock_guard_def)
next
  case False
  with assms [of "st\<lparr>mutex_held := True\<rparr>"] show ?thesis
    by (cases "body (st\<lparr>mutex_held := True\<rparr>)") (simp_all add: lock_guard_def)
qed

lemma final_lock_guard_trace:
  assumes "\<And>s. \<exists>evs. trace (final (body s)) = trace s @ evs"
  shows "\<exists>evs. trace (final (lock_guard e body st)) = trace st @ evs"
proof (cases "mutex_held st")
  case True
  with assms [of st] show ?thesis
    by (cases "relock e") (simp_all add: lock_guard_def)
next
  case False
  with assms [of "st\<lparr>mutex_held := True\<rparr>"] show ?thesis
    by (cases "body (st\<lparr>mutex_held := True\<rparr>)") (simp_all add: lock_guard_def)
qed

lemma insert_text_attached: "attached (log_file (insert_text os x st)) = attached (log_file st)"
  by (cases os) (simp_all add: insert_text_def split: option.splits)

lemma insert_text_trace: "\<exists>evs. trace (insert_text os x st) = trace st @ evs"
  by (cases os) (simp_all add: insert_text_def split: option.splits)

lemma inserts_attached: "attached (log_file (inserts os xs st)) = attached (log_file st)"
  unfolding inserts_def
  by (induction xs arbitrary: st) (simp_all add: insert_text_attached)

lemma inserts_trace: "\<exists>evs. trace (inserts os xs st) = trace st @ evs"
  unfolding inserts_def
proof (induction xs arbitrary: st)
  case Nil
  then show ?case by simp
next
  case (Cons x xs)
  obtain evs where "trace (insert_text os x st) = trace st @ evs"
    using insert_text_trace by blast
  moreover obtain evs' where
    "trace (foldl (\<lambda>s x. insert_text os x s) (insert_text os x st) xs) =
       trace (insert_text os x st) @ evs'"
    using Cons.IH by blast
  ultimately show ?case by simp
qed

lemma flush_attached: "attached (log_file (flush os st)) = attached (log_file st)"
  by (cases os) (simp_all add: flush_def split: option.splits)

lemma flush_trace: "\<exists>evs. trace (flush os st) = trace st @ evs"
  by (cases os) (simp_all add: flush_def split: option.splits)

lemma get_log_stream_final: "final (get_log_stream e st) = st"
  by (cases "may_lock e st") (simp_all add: get_log_stream_returns get_log_stream_hangs)

lemma put_attached: "attached (log_file (final (put e xs st))) = attached (log_file st)"
  by (cases "may_lock e st")
     (simp_all add: put_def get_log_stream_returns get_log_stream_hangs inserts_attached)

lemma put_trace: "\<exists>evs. trace (final (put e xs st)) = trace st @ evs"
  by (cases "may_lock e st")
     (simp_all add: put_def get_log_stream_returns get_log_stream_hangs inserts_trace)

lemma flush_log_stream_attached:
  "attached (log_file (final (flush_log_stream e st))) = attached (log_file st)"
  by (cases "may_lock e st")
     (simp_all add: flush_log_stream_def get_log_stream_returns get_log_stream_hangs
        flush_attached)

lemma flush_log_stream_trace: "\<exists>evs. trace (final (flush_log_stream e st)) = trace st @ evs"
  by (cases "may_lock e st")
     (simp_all add: flush_log_stream_def get_log_stream_returns get_log_stream_hangs
        flush_trace)

lemma seq_attached:
  assumes "\<And>c s. c \<in> set cs \<Longrightarrow> attached (log_file (final (c s))) = attached (log_file s)"
  shows "attached (log_file (final (seq cs st))) = attached (log_file st)"
  using assms
proof (induction cs arbitrary: st)
  case Nil
  then show ?case by simp
next
  case (Cons c cs)
  have head: "attached (log_file (final (c st))) = attached (log_file st)"
    using Cons.prems by simp
  show ?case
  proof (cases "c st")
    case (Hang st')
    with head show ?thesis by simp
  next
    case (Done u st')
    with head have "attached (log_file st') = attached (log_file st)" by simp
    moreover have "attached (log_file (final (seq cs st'))) = attached (log_file st')"
      using Cons.IH Cons.prems by simp
    ultimately show ?thesis using Done by simp
  qed
qed

lemma seq_trace:
  assumes "\<And>c s. c \<in> set cs \<Longrightarrow> \<exists>evs. trace (final (c s)) = trace s @ evs"
  shows "\<exists>evs. trace (final (seq cs st)) = trace st @ evs"
  using assms
proof (induction cs arbitrary: st)
  case Nil
  then show ?case by simp
next
  case (Cons c cs)
  obtain evs where head: "trace (final (c st)) = trace st @ evs"
    using Cons.prems [of c st] by auto
  show ?case
  proof (cases "c st")
    case (Hang st')
    with head show ?thesis by simp
  next
    case (Done u st')
    with head have "trace st' = trace st @ evs" by simp
    moreover obtain evs' where "trace (final (seq cs st')) = trace st' @ evs'"
      using Cons.IH [of st'] Cons.prems by auto
    ultimately show ?thesis using Done by simp
  qed
qed

lemma set_color_final: "final (set_color c st) = st\<lparr>trace := trace st @ [SetColor c]\<rparr>"
  by (simp add: set_color_def)

lemma console_steps_attached:
  assumes "c \<in> set
     [put e [''['', time_buffer now],
      (case log_level r of
         Debug \<Rightarrow> put e [''|Debug] '']
       | Info \<Rightarrow> put e [''|Info ] '']
       | Warn \<Rightarrow> put e [''|Warn ] '']
       | Err \<Rightarrow> put e [''|Error] '']),
      set_color Reset,
      put e [s_str r],
      put e ['' ('', caller_filename r, '':'', dec (caller_filenumber r), '')''],
      put e [newline],
      flush_log_stream e]"
  shows "attached (log_file (final (c s))) = attached (log_file s)"
  using assms
  by (cases "log_level r")
     (auto simp: put_attached flush_log_stream_attached set_color_final)

lemma console_steps_trace:
  assumes "c \<in> set
     [put e [''['', time_buffer now],
      (case log_level r of
         Debug \<Rightarrow> put e [''|Debug] '']
       | Info \<Rightarrow> put e [''|Info ] '']
       | Warn \<Rightarrow> put e [''|Warn ] '']
       | Err \<Rightarrow> put e [''|Error] '']),
      set_color Reset,
      put e [s_str r],
      put e ['' ('', caller_filename r, '':'', dec (caller_filenumber r), '')''],
      put e [newline],
      flush_log_stream e]"
  shows "\<exists>evs. trace (final (c s)) = trace s @ evs"
  using assms
  by (cases "log_level r")
     (auto simp: put_trace flush_log_stream_trace set_color_final)

lemma output_path_unfold:
  assumes "\<not> ANDROID e"
  shows "output_path e now r st =
     seq
      [put e [''['', time_buffer now],
       (case log_level r of
          Debug \<Rightarrow> put e [''|Debug] '']
        | Info \<Rightarrow> put e [''|Info ] '']
        | Warn \<Rightarrow> put e [''|Warn ] '']
        | Err \<Rightarrow> put e [''|Error] '']),
       set_color Reset,
       put e [s_str r],
       put e ['' ('', caller_filename r, '':'', dec (caller_filenumber r), '')''],
       put e [newline],
       flush_log_stream e]
      (st\<lparr>trace := trace st @ [SetColor (spec_color (log_level r))]\<rparr>)"
  using assms
  by (cases "log_level r") (simp_all add: output_path_def set_color_def spec_color_def)

lemma output_path_first:
  "\<exists>evs. trace (final (output_path e now r st)) = trace st @ first_output e r # evs"
proof (cases "ANDROID e")
  case True
  then show ?thesis by (simp add: output_path_android first_output_def)
next
  case False
  have "\<exists>evs. trace (final (output_path e now r st)) =
       trace (st\<lparr>trace := trace st @ [SetColor (spec_color (log_level r))]\<rparr>) @ evs"
    unfolding output_path_unfold [OF False]
    by (rule seq_trace) (erule console_steps_trace)
  with False show ?thesis by (simp add: first_output_def)
qed

lemma output_path_attached:
  "attached (log_file (final (output_path e now r st))) = attached (log_file st)"
proof (cases "ANDROID e")
  case True
  then show ?thesis by (simp add: output_path_android)
next
  case False
  have "attached (log_file (final (output_path e now r st))) =
        attached (log_file (st\<lparr>trace := trace st @ [SetColor (spec_color (log_level r))]\<rparr>))"
    unfolding output_path_unfold [OF False]
    by (rule seq_attached) (erule console_steps_attached)
  then show ?thesis by simp
qed

lemma log_statement_attached:
  "attached (log_file (final (log_statement e now mk file line xs st))) = attached (log_file st)"
  unfolding log_statement_def
  by (rule final_lock_guard_attached) (simp add: LogDetailed_dtor_def output_path_attached)

lemma set_log_file_attached:
  assumes "attached (log_file st) = Some p"
  shows "attached (log_file (final (set_log_file e path st))) = Some p"
proof (cases "may_lock e st")
  case False
  with assms show ?thesis by (simp add: set_log_file_hangs)
next
  case True
  with assms show ?thesis by (simp add: set_log_file_already_open is_open_def)
qed

lemma exec_attached:
  assumes "attached (log_file st) = Some p"
  shows "attached (log_file (final (exec e now c st))) = Some p"
proof (cases c)
  case (SetLogFile path)
  with assms show ?thesis by (simp add: set_log_file_attached)
next
  case GetLogStream
  have "final (exec e now GetLogStream st) = st"
    by (cases "may_lock e st") (simp_all add: get_log_stream_returns get_log_stream_hangs)
  with GetLogStream assms show ?thesis by simp
next
  case (LogStatement l f n xs)
  with assms show ?thesis by (simp add: log_statement_attached)
qed

lemma run_attached:
  assumes "attached (log_file st) = Some p"
  shows "attached (log_file (final (run cs st))) = Some p"
  using assms
proof (induction cs arbitrary: st)
  case Nil
  then show ?case by simp
next
  case (Cons a cs)
  obtain e now c where a: "a = (e, now, c)" by (cases a) auto
  have step: "attached (log_file (final (exec e now c st))) = Some p"
    using Cons.prems by (rule exec_attached)
  show ?case
  proof (cases "exec e now c st")
    case (Hang st')
    with step a show ?thesis by simp
  next
    case (Done u st')
    with step have "attached (log_file st') = Some p" by simp
    then have "attached (log_file (final (run cs st'))) = Some p" by (rule Cons.IH)
    with Done a show ?thesis by simp
  qed
qed

subsection \<open>A stream in its fail state\<close>

lemma inserts_failed: "failed (log_file st) \<Longrightarrow> inserts LogFile xs st = st"
  unfolding inserts_def by (induction xs) (simp_all add: insert_text_def)

lemma put_failed:
  "may_lock e st \<Longrightarrow> is_open (log_file st) \<Longrightarrow> failed (log_file st) \<Longrightarrow>
   put e xs st = Done () st"
  by (simp add: put_def get_log_stream_returns inserts_failed)

lemma output_path_failed:
  assumes "\<not> ANDROID e" and "may_lock e st" and "is_open (log_file st)"
    and "failed (log_file st)"
  shows "output_path e now r st =
           Done () (st\<lparr>trace := trace st @
                        [SetColor (spec_color (log_level r)), SetColor Reset]\<rparr>)"
  using assms
  by (cases "log_level r")
     (simp_all add: output_path_def set_color_def put_failed flush_log_stream_def
        get_log_stream_returns flush_def spec_color_def)

subsection \<open>The destructor in every case\<close>

lemma dtor_cases:
  assumes "\<not> ANDROID e" and "\<not> handled e r"
  shows "LogDetailed_dtor e now r st =
     (if \<not> may_lock e st then
        Hang (st\<lparr>trace := trace st @ [SetColor (spec_color (log_level r))]\<rparr>)
      else if \<not> sink_good st then
        Done () (st\<lparr>trace := trace st @
                     [SetColor (spec_color (log_level r)), SetColor Reset]\<rparr>)
      else (case attached (log_file st) of
              None \<Rightarrow> Done () (st\<lparr>trace := trace st @ line_events Console now r\<rparr>)
            | Some p \<Rightarrow>
                Done () (st\<lparr>fs := (fs st)(p \<mapsto> contents st p @ spec_line now r),
                            trace := trace st @ line_events (File p) now r\<rparr>)))"
proof (cases "may_lock e st")
  case False
  with assms show ?thesis by (simp add: LogDetailed_dtor_def output_path_hangs)
next
  case True
  show ?thesis
  proof (cases "attached (log_file st)")
    case None
    with assms True show ?thesis
      by (simp add: LogDetailed_dtor_def output_path_console sink_good_def is_open_def)
  next
    case (Some p)
    with assms True show ?thesis
      by (cases "failed (log_file st)")
         (simp_all add: LogDetailed_dtor_def output_path_file output_path_failed sink_good_def
            is_open_def)
  qed
qed

lemma dtor_returns:
  assumes "\<not> ANDROID e" and "\<not> handled e r"
  shows "returns (LogDetailed_dtor e now r st) = may_lock e st"
  by (simp add: dtor_cases [OF assms] split: option.splits)

lemma dtor_trace:
  assumes "\<not> ANDROID e" and "\<not> handled e r"
  shows "trace (final (LogDetailed_dtor e now r st)) =
     trace st @
     (if \<not> may_lock e st then [SetColor (spec_color (log_level r))]
      else if \<not> sink_good st then [SetColor (spec_color (log_level r)), SetColor Reset]
      else line_events (active_sink st) now r)"
  by (simp add: dtor_cases [OF assms] active_sink_def split: option.splits)

lemma written_line_events:
  "written k' (line_events k now r) = (if k' = k then spec_line now r else [])"
  by (simp add: line_events_def spec_line_def)

lemma dtor_written:
  assumes "\<not> ANDROID e" and "\<not> handled e r"
  shows "written k (trace (final (LogDetailed_dtor e now r st))) =
     written k (trace st) @
     (if may_lock e st \<and> sink_good st \<and> k = active_sink st then spec_line now r else [])"
  by (simp add: dtor_trace [OF assms] written_append written_line_events)

section \<open>The claims\<close>

subsection \<open>Evaluating concrete calls\<close>

lemmas eval_defs =
  linux_def tolerant_def windows_def boot_def logging_def afternoon_def silence_def
  log_statement_def LogDetailed_dtor_def handled_def output_path_def lock_guard_def
  set_log_file_def get_log_stream_def put_def flush_log_stream_def set_color_def
  android_log_print_def inserts_def insert_text_def flush_def endl_def newline_def
  ofstream_open_def is_open_def contents_def FILENAME_def shift_def ctor_of_def
  LogDetailed_ctor_def LogDebugDetailed_def LogInfoDetailed_def LogWarnDetailed_def
  LogErrDetailed_def time_buffer_eq two_digits_def hour12_def digit_def dec_def
  dec_nat.simps notice_def active_sink_def may_lock_def sink_good_def spec_line_def
  spec_label_def spec_color_def spec_prio_def first_output_def after_reset_def Let_def

subsection \<open>C2: interception\<close>

text \<open>
  C2: at the dispatch of a record, when an interception function is registered and
  returns handled for (level, message, file, line), nothing is written to the console,
  the file sink or the platform log: the destructor returns in the state it started
  in. When no function is registered, or the registered one returns not-handled, the
  normal output path runs: the destructor is the output path, whose first effect is the
  platform log call on Android and the colour of the level elsewhere.
\<close>

theorem C2_interception:
  "(get_callback e = Some cb \<and>
    cb (log_level r) (s_str r) (caller_filename r) (caller_filenumber r) \<longrightarrow>
      LogDetailed_dtor e now r st = Done () st) \<and>
   (get_callback e = None \<or>
    (get_callback e = Some cb \<and>
     \<not> cb (log_level r) (s_str r) (caller_filename r) (caller_filenumber r)) \<longrightarrow>
      LogDetailed_dtor e now r st = output_path e now r st \<and>
      (\<exists>evs. trace (final (LogDetailed_dtor e now r st)) = trace st @ first_output e r # evs))"
proof (intro conjI impI)
  assume "get_callback e = Some cb \<and>
    cb (log_level r) (s_str r) (caller_filename r) (caller_filenumber r)"
  then have "handled e r" by (simp add: handled_def)
  then show "LogDetailed_dtor e now r st = Done () st" by (simp add: LogDetailed_dtor_def)
next
  assume "get_callback e = None \<or>
    (get_callback e = Some cb \<and>
     \<not> cb (log_level r) (s_str r) (caller_filename r) (caller_filenumber r))"
  then have "\<not> handled e r" by (auto simp: handled_def)
  then show same: "LogDetailed_dtor e now r st = output_path e now r st"
    by (simp add: LogDetailed_dtor_def)
  show "\<exists>evs. trace (final (LogDetailed_dtor e now r st)) = trace st @ first_output e r # evs"
    unfolding same by (rule output_path_first)
qed

theorem C2_witness:
  "get_callback (linux\<lparr>get_callback := Some silence\<rparr>) = Some silence \<and>
   silence Info ''starting'' ''engine.cpp'' 42 \<and>
   LogDetailed_dtor (linux\<lparr>get_callback := Some silence\<rparr>) afternoon
     (shift (LogInfoDetailed ''engine.cpp'' 42) ''starting'') (boot\<lparr>mutex_held := True\<rparr>) =
     Done () (boot\<lparr>mutex_held := True\<rparr>) \<and>
   get_callback tolerant = None \<and>
   (\<exists>evs. trace (final (LogDetailed_dtor tolerant afternoon
      (shift (LogInfoDetailed ''engine.cpp'' 42) ''starting'') (boot\<lparr>mutex_held := True\<rparr>))) =
      trace (boot\<lparr>mutex_held := True\<rparr>) @ SetColor Blue # evs)"
proof -
  let ?r = "shift (LogInfoDetailed ''engine.cpp'' 42) ''starting''"
  let ?st = "boot\<lparr>mutex_held := True\<rparr>"
  have r: "log_level ?r = Info" "s_str ?r = ''starting''" "caller_filename ?r = ''engine.cpp''"
    "caller_filenumber ?r = 42"
    by (simp_all add: shift_def LogInfoDetailed_def LogDetailed_ctor_def)
  have cb: "get_callback (linux\<lparr>get_callback := Some silence\<rparr>) = Some silence"
    "silence Info ''starting'' ''engine.cpp'' 42"
    by (simp_all add: silence_def)
  have none: "get_callback tolerant = None"
    by (simp add: tolerant_def linux_def)
  have first: "first_output tolerant ?r = SetColor Blue"
    by (simp add: first_output_def r spec_color_def tolerant_def linux_def)
  have "LogDetailed_dtor (linux\<lparr>get_callback := Some silence\<rparr>) afternoon ?r ?st = Done () ?st"
    using C2_interception [of "linux\<lparr>get_callback := Some silence\<rparr>" silence ?r afternoon ?st]
      cb r by simp
  moreover have "\<exists>evs. trace (final (LogDetailed_dtor tolerant afternoon ?r ?st)) =
      trace ?st @ SetColor Blue # evs"
    using C2_interception [of tolerant silence ?r afternoon ?st] none
    unfolding first by blast
  ultimately show ?thesis using cb none by blast
qed

subsection \<open>C3: the line on the console or in the file\<close>

text \<open>
  C3 says that every dispatch on the console/file branch writes
  \<^verbatim>\<open>[HH:MM:SS|<LevelLabel>] m (f:n)\<close> and a newline to the active sink and flushes it.
  The record's \<^verbatim>\<open>_lock_guard\<close> (line 68) owns \<^verbatim>\<open>log_mutex_\<close> while the destructor
  runs, and the destructor's first write calls \<^verbatim>\<open>get_log_stream\<close> (line 135), which
  locks \<^verbatim>\<open>log_mutex_\<close> again (line 51). Where the mutex blocks on that, no log
  statement on this branch returns, and nothing reaches any sink: the only event is the
  colour of the level.
\<close>

theorem C3_dispatch_hangs_before_writing:
  assumes "\<not> ANDROID e" and "relock e = Blocks"
    and "\<not> handled e (foldl shift (mk (FILENAME e src) n) xs)"
  shows "\<not> returns (log_statement e now mk src n xs st) \<and>
         written k (trace (final (log_statement e now mk src n xs st))) =
           written k (trace st) \<and>
         fs (final (log_statement e now mk src n xs st)) = fs st \<and>
         (\<not> mutex_held st \<longrightarrow>
            trace (final (log_statement e now mk src n xs st)) =
              trace st @
              [SetColor (spec_color (log_level (foldl shift (mk (FILENAME e src) n) xs)))])"
  using assms by (simp add: log_statement_hangs written_append)

theorem C3_failing_input:
  "\<not> ANDROID linux \<and> relock linux = Blocks \<and>
   \<not> handled linux (foldl shift (LogInfoDetailed (FILENAME linux ''/home/dev/engine.cpp'') 42)
        [''starting'']) \<and>
   \<not> returns (log_statement linux afternoon LogInfoDetailed ''/home/dev/engine.cpp'' 42
        [''starting''] boot) \<and>
   trace (final (log_statement linux afternoon LogInfoDetailed ''/home/dev/engine.cpp'' 42
        [''starting''] boot)) = [SetColor Blue] \<and>
   written Console (trace (final (log_statement linux afternoon LogInfoDetailed
        ''/home/dev/engine.cpp'' 42 [''starting''] boot))) = []"
proof -
  have pre: "\<not> ANDROID linux" "relock linux = Blocks"
    "\<not> handled linux (foldl shift (LogInfoDetailed (FILENAME linux ''/home/dev/engine.cpp'') 42)
        [''starting''])"
    by (simp_all add: linux_def handled_def)
  have free: "\<not> mutex_held boot" "trace boot = []"
    by (simp_all add: boot_def)
  have level: "log_level (foldl shift (LogInfoDetailed (FILENAME linux ''/home/dev/engine.cpp'') 42)
        [''starting'']) = Info"
    by (simp add: shift_def LogInfoDetailed_def LogDetailed_ctor_def)
  from C3_dispatch_hangs_before_writing
    [where e = linux and mk = LogInfoDetailed and src = "''/home/dev/engine.cpp''" and n = 42
      and xs = "[''starting'']" and now = afternoon and st = boot and k = Console, OF pre]
    pre free level
  show ?thesis by (simp add: spec_color_def)
qed

subsection \<open>C4: a path that cannot be opened\<close>

text \<open>
  C4 says that for every path that cannot be opened \<^verbatim>\<open>set_log_file\<close> writes a failure
  notice to the console and leaves the active sink unchanged, and that a subsequent log
  call succeeds with its line on the console. With a file already open the call writes
  no failure notice (the test of line 44 asks whether the stream is open, and it is),
  and the refused open puts the stream, good before, into its fail state. With no file
  open and a mutex that blocks, the subsequent log statement does not return and the
  console holds the two notices and no log line.
\<close>

theorem C4_counterexample:
  "\<not> can_open linux ''/nonexistent/x.log'' \<and>
   trace (final (set_log_file linux ''/nonexistent/x.log'' logging)) =
     [Write Console ''Opened log file: '', Write Console ''/nonexistent/x.log'',
      Write Console newline, Flush Console] \<and>
   written Console (trace (final (set_log_file linux ''/nonexistent/x.log'' logging))) =
     ''Opened log file: /nonexistent/x.log'' @ newline \<and>
   \<not> failed (log_file logging) \<and>
   failed (log_file (final (set_log_file linux ''/nonexistent/x.log'' logging))) \<and>
   \<not> returns (log_statement linux afternoon LogInfoDetailed ''/home/dev/engine.cpp'' 42
     [''starting''] (final (set_log_file linux ''/nonexistent/x.log'' boot))) \<and>
   written Console (trace (final (log_statement linux afternoon LogInfoDetailed
     ''/home/dev/engine.cpp'' 42 [''starting'']
     (final (set_log_file linux ''/nonexistent/x.log'' boot))))) =
     ''Failed to open log file: /nonexistent/x.log'' @ newline @
     ''Opened log file: /nonexistent/x.log'' @ newline"
  by (simp add: eval_defs)

text \<open>
  C4, amended: for every path that cannot be opened for appending, a call of
  \<^verbatim>\<open>set_log_file\<close> by a thread that can take \<^verbatim>\<open>log_mutex_\<close> returns and changes no
  file. Made while no log file is open, it writes the failure notice to the console,
  and the notice \<^verbatim>\<open>Opened log file\<close> after it, and the sink remains the console:
  \<^verbatim>\<open>get_log_stream\<close>, when it can take the mutex, returns the console stream, which
  takes text as before. Made while a log file is open, it writes only the notice
  \<^verbatim>\<open>Opened log file\<close> and no failure notice; that file stays attached as the sink, but
  the refused open leaves the stream in its fail state, in which an insertion and a
  flush do nothing.
\<close>

theorem C4_unopenable_path:
  assumes "\<not> can_open e path" and "may_lock e st"
  shows "(\<not> is_open (log_file st) \<longrightarrow>
            set_log_file e path st =
              Done () (st\<lparr>log_file := (log_file st)\<lparr>failed := True\<rparr>,
                          trace := trace st @ notice ''Failed to open log file: '' path @
                                   notice ''Opened log file: '' path\<rparr>) \<and>
            active_sink (final (set_log_file e path st)) = Console \<and>
            (may_lock e' (final (set_log_file e path st)) \<longrightarrow>
               get_log_stream e' (final (set_log_file e path st)) =
                 Done StdCout (final (set_log_file e path st))) \<and>
            insert_text StdCout x (final (set_log_file e path st)) =
              (final (set_log_file e path st))
                \<lparr>trace := trace (final (set_log_file e path st)) @ [Write Console x]\<rparr>) \<and>
         (is_open (log_file st) \<longrightarrow>
            set_log_file e path st =
              Done () (st\<lparr>log_file := (log_file st)\<lparr>failed := True\<rparr>,
                          trace := trace st @ notice ''Opened log file: '' path\<rparr>) \<and>
            active_sink (final (set_log_file e path st)) = active_sink st \<and>
            (may_lock e' (final (set_log_file e path st)) \<longrightarrow>
               get_log_stream e' (final (set_log_file e path st)) =
                 Done LogFile (final (set_log_file e path st))) \<and>
            insert_text LogFile x (final (set_log_file e path st)) =
              final (set_log_file e path st) \<and>
            flush LogFile (final (set_log_file e path st)) = final (set_log_file e path st)) \<and>
         fs (final (set_log_file e path st)) = fs st"
proof (cases "is_open (log_file st)")
  case True
  have call: "set_log_file e path st =
      Done () (st\<lparr>log_file := (log_file st)\<lparr>failed := True\<rparr>,
                  trace := trace st @ notice ''Opened log file: '' path\<rparr>)"
    using assms(2) True by (rule set_log_file_already_open)
  have stream: "get_log_stream e' (final (set_log_file e path st)) =
      Done LogFile (final (set_log_file e path st))"
    if "may_lock e' (final (set_log_file e path st))"
    using that True by (simp add: get_log_stream_returns call is_open_def)
  from True stream show ?thesis
    by (simp add: call active_sink_def insert_text_def flush_def)
next
  case False
  have call: "set_log_file e path st =
      Done () (st\<lparr>log_file := (log_file st)\<lparr>failed := True\<rparr>,
                  trace := trace st @ notice ''Failed to open log file: '' path @
                           notice ''Opened log file: '' path\<rparr>)"
    using assms(2) False assms(1) by (rule set_log_file_refused)
  have stream: "get_log_stream e' (final (set_log_file e path st)) =
      Done StdCout (final (set_log_file e path st))"
    if "may_lock e' (final (set_log_file e path st))"
    using that False by (simp add: get_log_stream_returns call is_open_def)
  from False stream show ?thesis
    by (simp add: call active_sink_def insert_text_def is_open_def)
qed

theorem C4_witness:
  "\<not> can_open linux ''/nonexistent/x.log'' \<and> may_lock linux boot \<and>
   \<not> is_open (log_file boot) \<and>
   returns (set_log_file linux ''/nonexistent/x.log'' boot) \<and>
   trace (final (set_log_file linux ''/nonexistent/x.log'' boot)) =
     [Write Console ''Failed to open log file: '', Write Console ''/nonexistent/x.log'',
      Write Console newline, Flush Console,
      Write Console ''Opened log file: '', Write Console ''/nonexistent/x.log'',
      Write Console newline, Flush Console] \<and>
   active_sink (final (set_log_file linux ''/nonexistent/x.log'' boot)) = Console \<and>
   may_lock linux logging \<and> is_open (log_file logging) \<and>
   active_sink (final (set_log_file linux ''/nonexistent/x.log'' logging)) = File ''mavsdk.log'' \<and>
   insert_text LogFile ''lost'' (final (set_log_file linux ''/nonexistent/x.log'' logging)) =
     final (set_log_file linux ''/nonexistent/x.log'' logging)"
proof -
  have pre: "\<not> can_open linux ''/nonexistent/x.log''" "may_lock linux boot"
    by (simp_all add: linux_def may_lock_def boot_def)
  have pre': "\<not> can_open linux ''/nonexistent/x.log''" "may_lock linux logging"
    by (simp_all add: linux_def may_lock_def logging_def)
  have shut: "\<not> is_open (log_file boot)" "trace boot = []"
    by (simp_all add: boot_def is_open_def)
  have opened: "is_open (log_file logging)" "active_sink logging = File ''mavsdk.log''"
    by (simp_all add: logging_def is_open_def active_sink_def)
  note a = C4_unopenable_path [OF pre, THEN conjunct1, THEN mp, OF shut(1)]
  note b = C4_unopenable_path [OF pre', THEN conjunct2, THEN conjunct1, THEN mp, OF opened(1)]
  have 1: "returns (set_log_file linux ''/nonexistent/x.log'' boot)"
    using a [THEN conjunct1] by simp
  have 2: "trace (final (set_log_file linux ''/nonexistent/x.log'' boot)) =
     [Write Console ''Failed to open log file: '', Write Console ''/nonexistent/x.log'',
      Write Console newline, Flush Console,
      Write Console ''Opened log file: '', Write Console ''/nonexistent/x.log'',
      Write Console newline, Flush Console]"
    using a [THEN conjunct1] by (simp add: shut notice_def)
  have 3: "active_sink (final (set_log_file linux ''/nonexistent/x.log'' boot)) = Console"
    by (rule a [THEN conjunct2, THEN conjunct1])
  have 4: "active_sink (final (set_log_file linux ''/nonexistent/x.log'' logging)) =
      File ''mavsdk.log''"
    using b [THEN conjunct2, THEN conjunct1] opened(2) by simp
  have 5: "insert_text LogFile ''lost'' (final (set_log_file linux ''/nonexistent/x.log'' logging)) =
     final (set_log_file linux ''/nonexistent/x.log'' logging)"
    by (rule b [THEN conjunct2, THEN conjunct2, THEN conjunct2, THEN conjunct1])
  show ?thesis
    by (intro conjI) (rule pre pre' shut opened 1 2 3 4 5)+
qed

subsection \<open>C5: a path that can be opened\<close>




subsection \<open>C6: the captured file name\<close>

text \<open>
  C6 says that the file name captured at every call site is the path with all directory
  components stripped. With \<^verbatim>\<open>WINDOWS\<close> defined the macro is \<^verbatim>\<open>__FILE__\<close> itself
  (line 24): the path is captured whole.
\<close>

theorem C6_counterexample:
  "WINDOWS windows \<and> FILENAME windows ''/a/b/c.cpp'' = ''/a/b/c.cpp'' \<and>
   FILENAME windows ''/a/b/c.cpp'' \<noteq> ''c.cpp''"
  by (simp add: FILENAME_def windows_def linux_def)

text \<open>
  C6, amended: in a build without \<^verbatim>\<open>WINDOWS\<close> the captured name is the path with all
  directory components stripped: it contains no separator, the path is a directory
  prefix (empty, or ending in the separator) followed by it, a path with no separator
  is returned unchanged, \<^verbatim>\<open>/a/b/c.cpp\<close> gives \<^verbatim>\<open>c.cpp\<close> and \<^verbatim>\<open>c.cpp\<close> gives
  \<^verbatim>\<open>c.cpp\<close>. In a build with \<^verbatim>\<open>WINDOWS\<close> the path is captured unchanged. The log
  statement hands this name to the record's constructor.
\<close>

theorem C6_FILENAME_strips_directories:
  "(\<not> WINDOWS e \<longrightarrow>
      CHR ''/'' \<notin> set (FILENAME e file) \<and>
      (\<exists>dir. file = dir @ FILENAME e file \<and> (dir = [] \<or> last dir = CHR ''/'')) \<and>
      (CHR ''/'' \<notin> set file \<longrightarrow> FILENAME e file = file) \<and>
      FILENAME e ''/a/b/c.cpp'' = ''c.cpp'' \<and>
      FILENAME e ''c.cpp'' = ''c.cpp'') \<and>
   (WINDOWS e \<longrightarrow> FILENAME e file = file) \<and>
   caller_filename (foldl shift (ctor_of l (FILENAME e file) line) xs) = FILENAME e file"
proof -
  have keeps: "caller_filename (foldl shift r xs) = caller_filename r" for r
    by (induction xs arbitrary: r) (simp_all add: shift_def)
  have ctor: "caller_filename (ctor_of l f line) = f" for f
    by (cases l)
       (simp_all add: ctor_of_def LogDetailed_ctor_def LogDebugDetailed_def
          LogInfoDetailed_def LogWarnDetailed_def LogErrDetailed_def)
  have strip: "CHR ''/'' \<notin> set (FILENAME e file) \<and>
      (\<exists>dir. file = dir @ FILENAME e file \<and> (dir = [] \<or> last dir = CHR ''/'')) \<and>
      (CHR ''/'' \<notin> set file \<longrightarrow> FILENAME e file = file)" if posix: "\<not> WINDOWS e"
  proof (cases "strrchr file (CHR ''/'')")
    case None
    then have "CHR ''/'' \<notin> set file" by (simp add: strrchr_None)
    with None posix show ?thesis by (simp add: FILENAME_def)
  next
    case (Some p)
    then obtain d q where dq: "file = d @ CHR ''/'' # q" "p = CHR ''/'' # q" "CHR ''/'' \<notin> set q"
      using strrchr_Some by blast
    from Some posix dq have name: "FILENAME e file = q" by (simp add: FILENAME_def)
    have "file = (d @ [CHR ''/'']) @ q" using dq by simp
    moreover have "last (d @ [CHR ''/'']) = CHR ''/''" by simp
    ultimately have "\<exists>dir. file = dir @ q \<and> (dir = [] \<or> last dir = CHR ''/'')" by blast
    with name dq show ?thesis by auto
  qed
  have examples: "FILENAME e ''/a/b/c.cpp'' = ''c.cpp'' \<and> FILENAME e ''c.cpp'' = ''c.cpp''"
    if "\<not> WINDOWS e"
    using that by (simp add: FILENAME_def)
  have win: "FILENAME e file = file" if "WINDOWS e"
    using that by (simp add: FILENAME_def)
  from strip examples win keeps ctor show ?thesis by simp
qed

theorem C6_witness:
  "\<not> WINDOWS linux \<and>
   FILENAME linux ''/src/mavsdk/core/engine.cpp'' = ''engine.cpp'' \<and>
   CHR ''/'' \<notin> set (FILENAME linux ''/src/mavsdk/core/engine.cpp'') \<and>
   WINDOWS windows \<and>
   FILENAME windows ''/src/mavsdk/core/engine.cpp'' = ''/src/mavsdk/core/engine.cpp''"
  using C6_FILENAME_strips_directories [of linux "''/src/mavsdk/core/engine.cpp''" Info 42 "[]"]
    C6_FILENAME_strips_directories [of windows "''/src/mavsdk/core/engine.cpp''" Info 42 "[]"]
  by (simp add: FILENAME_def windows_def linux_def)

subsection \<open>C7: where the colour is reset\<close>

text \<open>
  C7 says that the colour is reset only after the complete line, with the message and
  the suffix, has been written. The reset of line 152 stands between the level tag
  (lines 137 to 150) and the message (line 154): where dispatch runs to completion, the
  message, the suffix and the newline are written after the reset; where the mutex
  blocks, the colour is never reset.
\<close>

theorem C7_counterexample:
  "written Console (after_reset (trace (final (log_statement tolerant afternoon LogInfoDetailed
     ''/home/dev/engine.cpp'' 42 [''starting''] boot)))) =
     ''starting (engine.cpp:42)'' @ newline \<and>
   written Console (after_reset (trace (final (log_statement tolerant afternoon LogInfoDetailed
     ''/home/dev/engine.cpp'' 42 [''starting''] boot)))) \<noteq> [] \<and>
   SetColor Reset \<notin> set (trace (final (log_statement linux afternoon LogInfoDetailed
     ''/home/dev/engine.cpp'' 42 [''starting''] boot)))"
  by (simp add: eval_defs)

text \<open>
  C7, amended: on the console/file branch the steps of dispatch are, in this order:
  set the console colour determined by the level (Debug green, Info blue, Warn yellow,
  Error red); write the bracket, the time and the level tag to the active sink; reset
  the colour; write the message text, the (file:line) suffix and the newline to the
  active sink; flush the sink. Dispatch always performs the first step, and it performs
  all of them exactly when it runs to completion, which is exactly when
  \<^verbatim>\<open>get_log_stream\<close> can take \<^verbatim>\<open>log_mutex_\<close>; otherwise the first step is all it
  does. The colour reset comes after the level tag and before the message, not after
  the complete line. A file stream in its fail state takes no text: the writes and the
  flush then leave no event, and the two colour events remain.
\<close>

theorem C7_reset_after_level_tag:
  assumes "\<not> ANDROID e" and "\<not> handled e r"
  shows "trace (final (LogDetailed_dtor e now r st)) =
           trace st @
           [SetColor (spec_color (log_level r))] @
           (if may_lock e st then
              (if sink_good st then
                 [Write (active_sink st) ''['',
                  Write (active_sink st) (time_buffer now),
                  Write (active_sink st) (''|'' @ spec_label (log_level r) @ ''] '')]
               else []) @
              [SetColor Reset] @
              (if sink_good st then
                 [Write (active_sink st) (s_str r),
                  Write (active_sink st) '' ('',
                  Write (active_sink st) (caller_filename r),
                  Write (active_sink st) '':'',
                  Write (active_sink st) (dec (caller_filenumber r)),
                  Write (active_sink st) '')'',
                  Write (active_sink st) newline,
                  Flush (active_sink st)]
               else [])
            else []) \<and>
         returns (LogDetailed_dtor e now r st) = may_lock e st \<and>
         spec_color Debug = Green \<and> spec_color Info = Blue \<and>
         spec_color Warn = Yellow \<and> spec_color Err = Red"
proof -
  have events: "trace (final (LogDetailed_dtor e now r st)) =
     trace st @
     (if \<not> may_lock e st then [SetColor (spec_color (log_level r))]
      else if \<not> sink_good st then [SetColor (spec_color (log_level r)), SetColor Reset]
      else line_events (active_sink st) now r)"
    using assms by (rule dtor_trace)
  have ret: "returns (LogDetailed_dtor e now r st) = may_lock e st"
    using assms by (rule dtor_returns)
  have colours: "spec_color Debug = Green \<and> spec_color Info = Blue \<and>
         spec_color Warn = Yellow \<and> spec_color Err = Red"
    by (simp add: spec_color_def)
  show ?thesis
    unfolding events ret
    by (simp add: line_events_def colours)
qed

theorem C7_witness:
  "\<not> ANDROID tolerant \<and>
   \<not> handled tolerant (shift (LogWarnDetailed ''engine.cpp'' 42) ''low battery'') \<and>
   may_lock tolerant (boot\<lparr>mutex_held := True\<rparr>) \<and>
   sink_good (boot\<lparr>mutex_held := True\<rparr>) \<and>
   returns (LogDetailed_dtor tolerant afternoon
     (shift (LogWarnDetailed ''engine.cpp'' 42) ''low battery'') (boot\<lparr>mutex_held := True\<rparr>)) \<and>
   trace (final (LogDetailed_dtor tolerant afternoon
     (shift (LogWarnDetailed ''engine.cpp'' 42) ''low battery'') (boot\<lparr>mutex_held := True\<rparr>))) =
     [SetColor Yellow, Write Console ''['', Write Console ''03:04:09'',
      Write Console ''|Warn ] '', SetColor Reset, Write Console ''low battery'',
      Write Console '' ('', Write Console ''engine.cpp'', Write Console '':'',
      Write Console ''42'', Write Console '')'', Write Console newline, Flush Console] \<and>
   \<not> ANDROID linux \<and>
   \<not> handled linux (shift (LogWarnDetailed ''engine.cpp'' 42) ''low battery'') \<and>
   \<not> may_lock linux (boot\<lparr>mutex_held := True\<rparr>) \<and>
   \<not> returns (LogDetailed_dtor linux afternoon
     (shift (LogWarnDetailed ''engine.cpp'' 42) ''low battery'') (boot\<lparr>mutex_held := True\<rparr>)) \<and>
   trace (final (LogDetailed_dtor linux afternoon
     (shift (LogWarnDetailed ''engine.cpp'' 42) ''low battery'') (boot\<lparr>mutex_held := True\<rparr>))) =
     [SetColor Yellow]"
proof -
  let ?r = "shift (LogWarnDetailed ''engine.cpp'' 42) ''low battery''"
  let ?st = "boot\<lparr>mutex_held := True\<rparr>"
  have pre: "\<not> ANDROID tolerant" "\<not> handled tolerant ?r"
    by (simp_all add: tolerant_def linux_def handled_def)
  have pre': "\<not> ANDROID linux" "\<not> handled linux ?r"
    by (simp_all add: linux_def handled_def)
  have good: "may_lock tolerant ?st" "\<not> may_lock linux ?st" "sink_good ?st"
    "active_sink ?st = Console" "trace ?st = []"
    by (simp_all add: may_lock_def tolerant_def linux_def sink_good_def active_sink_def
        boot_def is_open_def)
  have fields: "log_level ?r = Warn" "s_str ?r = ''low battery''"
    "caller_filename ?r = ''engine.cpp''" "caller_filenumber ?r = 42"
    by (simp_all add: shift_def LogWarnDetailed_def LogDetailed_ctor_def)
  have texts: "time_buffer afternoon = ''03:04:09''" "dec 42 = ''42''"
    "spec_label Warn = ''Warn ''" "spec_color Warn = Yellow"
    by (simp_all add: eval_defs)
  note a = C7_reset_after_level_tag [OF pre, of afternoon ?st]
  note b = C7_reset_after_level_tag [OF pre', of afternoon ?st]
  have 1: "returns (LogDetailed_dtor tolerant afternoon ?r ?st)"
    using a good by simp
  have 2: "trace (final (LogDetailed_dtor tolerant afternoon ?r ?st)) =
     [SetColor Yellow, Write Console ''['', Write Console ''03:04:09'',
      Write Console ''|Warn ] '', SetColor Reset, Write Console ''low battery'',
      Write Console '' ('', Write Console ''engine.cpp'', Write Console '':'',
      Write Console ''42'', Write Console '')'', Write Console newline, Flush Console]"
    using a [THEN conjunct1] unfolding fields texts by (simp add: good)
  have 3: "\<not> returns (LogDetailed_dtor linux afternoon ?r ?st)"
    using b good by simp
  have 4: "trace (final (LogDetailed_dtor linux afternoon ?r ?st)) = [SetColor Yellow]"
    using b [THEN conjunct1] unfolding fields texts by (simp add: good)
  show ?thesis
    by (intro conjI) (rule pre pre' good 1 2 3 4)+
qed

subsection \<open>C8: the first file stays\<close>

text \<open>
  C8: once \<^verbatim>\<open>set_log_file\<close> has opened a file, every later call of \<^verbatim>\<open>set_log_file\<close>
  fails: the open of the already open stream is refused (the stream's fail state is
  set) and the first file stays attached. Through every run of calls of the header the
  first file remains the active sink: the sink is never another file and never the
  console again, and \<^verbatim>\<open>get_log_stream\<close>, when it returns, returns the file stream.
\<close>

theorem C8_first_file_stays:
  assumes "attached (log_file st) = Some p"
  shows "(returns (set_log_file e path st) \<longrightarrow>
            failed (log_file (final (set_log_file e path st)))) \<and>
         attached (log_file (final (set_log_file e path st))) = Some p \<and>
         active_sink (final (set_log_file e path st)) = File p \<and>
         attached (log_file (final (run cs st))) = Some p \<and>
         active_sink (final (run cs st)) = File p \<and>
         (may_lock e' (final (run cs st)) \<longrightarrow>
            get_log_stream e' (final (run cs st)) = Done LogFile (final (run cs st)))"
proof -
  have fails: "failed (log_file (final (set_log_file e path st)))"
    if "returns (set_log_file e path st)"
  proof -
    from that have "may_lock e st" by (simp add: set_log_file_returns)
    with assms show ?thesis by (simp add: set_log_file_already_open is_open_def)
  qed
  have one: "attached (log_file (final (set_log_file e path st))) = Some p"
    using assms by (rule set_log_file_attached)
  have many: "attached (log_file (final (run cs st))) = Some p"
    using assms by (rule run_attached)
  have stream: "get_log_stream e' (final (run cs st)) = Done LogFile (final (run cs st))"
    if "may_lock e' (final (run cs st))"
    using that many by (simp add: get_log_stream_returns is_open_def)
  from fails one many stream show ?thesis by (simp add: active_sink_def)
qed

theorem C8_witness:
  "attached (log_file logging) = Some ''mavsdk.log'' \<and>
   returns (set_log_file linux ''flight.log'' logging) \<and>
   failed (log_file (final (set_log_file linux ''flight.log'' logging))) \<and>
   active_sink (final (set_log_file linux ''flight.log'' logging)) = File ''mavsdk.log'' \<and>
   active_sink (final (run
     [(linux, afternoon, SetLogFile ''flight.log''),
      (tolerant, afternoon, LogStatement Warn ''/home/dev/engine.cpp'' 42 [''low battery'']),
      (linux, afternoon, SetLogFile ''/nonexistent/x.log''),
      (linux, afternoon, GetLogStream)] logging)) = File ''mavsdk.log''"
proof -
  have open_now: "attached (log_file logging) = Some ''mavsdk.log''"
    by (simp add: logging_def)
  have ret: "returns (set_log_file linux ''flight.log'' logging)"
    by (simp add: set_log_file_returns may_lock_def logging_def)
  from C8_first_file_stays [OF open_now, of linux "''flight.log''"
      "[(linux, afternoon, SetLogFile ''flight.log''),
        (tolerant, afternoon, LogStatement Warn ''/home/dev/engine.cpp'' 42 [''low battery'']),
        (linux, afternoon, SetLogFile ''/nonexistent/x.log''),
        (linux, afternoon, GetLogStream)]"] open_now ret
  show ?thesis by blast
qed

text \<open>
  A refused open also leaves the stream in its fail state, in which insertions do
  nothing: the first file stays the sink, and a later log line is not written to it.
\<close>

lemma refused_open_drops_lines:
  "contents (final (log_statement tolerant afternoon LogInfoDetailed ''/home/dev/engine.cpp'' 42
     [''starting''] (final (set_log_file tolerant ''flight.log'' logging)))) ''mavsdk.log'' =
     ''earlier''"
  by (simp add: eval_defs)

subsection \<open>C9: the notices of \<^verbatim>\<open>set_log_file\<close>\<close>

text \<open>
  C9 says that on failure \<^verbatim>\<open>set_log_file\<close> prints both the failure notice and the
  success notice. The failure notice is printed when the stream is not open after the
  call of \<^verbatim>\<open>open\<close> (line 44). When the open fails because a file is already open, the
  stream is still open: only the success notice is printed.
\<close>

theorem C9_counterexample:
  "returns (set_log_file linux ''mavsdk.log'' logging) \<and>
   failed (log_file (final (set_log_file linux ''mavsdk.log'' logging))) \<and>
   trace (final (set_log_file linux ''mavsdk.log'' logging)) =
     [Write Console ''Opened log file: '', Write Console ''mavsdk.log'',
      Write Console newline, Flush Console]"
  by (simp add: eval_defs)

text \<open>
  C9, amended: every call of \<^verbatim>\<open>set_log_file\<close> that returns writes the notice
  \<^verbatim>\<open>Opened log file: <path>\<close> to the console last, also when the open failed. The open
  fails when a file is already open or the path cannot be opened. When it fails with no
  file open, the failure notice is printed first and the success notice after it; when
  it fails because a file is already open, the success notice is printed alone.
\<close>

theorem C9_notices:
  "returns (set_log_file e path st) \<longrightarrow>
     trace (final (set_log_file e path st)) =
       trace st @
       (if \<not> is_open (log_file st) \<and> \<not> can_open e path
        then notice ''Failed to open log file: '' path else []) @
       notice ''Opened log file: '' path \<and>
     failed (log_file (final (set_log_file e path st))) =
       (is_open (log_file st) \<or> \<not> can_open e path)"
proof
  assume "returns (set_log_file e path st)"
  then have lock: "may_lock e st" by (simp add: set_log_file_returns)
  show "trace (final (set_log_file e path st)) =
       trace st @
       (if \<not> is_open (log_file st) \<and> \<not> can_open e path
        then notice ''Failed to open log file: '' path else []) @
       notice ''Opened log file: '' path \<and>
     failed (log_file (final (set_log_file e path st))) =
       (is_open (log_file st) \<or> \<not> can_open e path)"
  proof (cases "is_open (log_file st)")
    case True
    with lock show ?thesis by (simp add: set_log_file_already_open)
  next
    case False
    with lock show ?thesis
      by (cases "can_open e path") (simp_all add: set_log_file_opens set_log_file_refused)
  qed
qed

theorem C9_witness:
  "returns (set_log_file linux ''/nonexistent/x.log'' boot) \<and>
   trace (final (set_log_file linux ''/nonexistent/x.log'' boot)) =
     [Write Console ''Failed to open log file: '', Write Console ''/nonexistent/x.log'',
      Write Console newline, Flush Console,
      Write Console ''Opened log file: '', Write Console ''/nonexistent/x.log'',
      Write Console newline, Flush Console] \<and>
   failed (log_file (final (set_log_file linux ''/nonexistent/x.log'' boot)))"
proof -
  have ret: "returns (set_log_file linux ''/nonexistent/x.log'' boot)"
    by (simp add: set_log_file_returns may_lock_def boot_def)
  have pre: "\<not> is_open (log_file boot)" "\<not> can_open linux ''/nonexistent/x.log''"
    "trace boot = []"
    by (simp_all add: boot_def linux_def is_open_def)
  from C9_notices [of linux "''/nonexistent/x.log''" boot] ret pre
  show ?thesis by (simp add: notice_def)
qed

subsection \<open>C10: the 12-hour clock\<close>

text \<open>
  C10: the timestamp of a formatted log line is rendered with the format
  \<^verbatim>\<open>%I:%M:%S\<close>, a 12-hour clock. The call of line 134 fits its buffer and gives the
  hour of the 12-hour clock, the minute and the second, two digits each. Over the hours
  0 to 23 the hour field reads 12, 01 to 11, 12, 01 to 11: it is always one of 01 to 12,
  never 00 or 13 to 23, and an afternoon hour reads as the morning hour twelve hours
  before. This text is the timestamp of the line: whatever a dispatch on the
  console/file branch writes to a sink is the line that begins with the bracket and
  this text, or nothing.
\<close>

theorem C10_twelve_hour_clock:
  "strftime 10 ''%I:%M:%S'' t = Some (time_buffer t) \<and>
   time_buffer t =
     two_digits (hour12 (tm_hour t)) @ '':'' @ two_digits (tm_min t) @ '':'' @
     two_digits (tm_sec t) \<and>
   map (\<lambda>h. take 2 (time_buffer (t\<lparr>tm_hour := h\<rparr>))) [0..<24] =
     [''12'', ''01'', ''02'', ''03'', ''04'', ''05'', ''06'', ''07'', ''08'', ''09'', ''10'', ''11'',
      ''12'', ''01'', ''02'', ''03'', ''04'', ''05'', ''06'', ''07'', ''08'', ''09'', ''10'', ''11''] \<and>
   1 \<le> hour12 (tm_hour t) \<and> hour12 (tm_hour t) \<le> 12 \<and>
   take 2 (time_buffer t) \<in>
     set [''01'', ''02'', ''03'', ''04'', ''05'', ''06'', ''07'', ''08'', ''09'', ''10'', ''11'', ''12''] \<and>
   time_buffer (t\<lparr>tm_hour := tm_hour t + 12\<rparr>) = time_buffer t \<and>
   time_buffer \<lparr>tm_hour = 15, tm_min = 4, tm_sec = 9\<rparr> = ''03:04:09'' \<and>
   time_buffer \<lparr>tm_hour = 3, tm_min = 4, tm_sec = 9\<rparr> = ''03:04:09'' \<and>
   time_buffer \<lparr>tm_hour = 0, tm_min = 0, tm_sec = 0\<rparr> = ''12:00:00'' \<and>
   strftime_format ''%H:%M:%S'' \<lparr>tm_hour = 15, tm_min = 4, tm_sec = 9\<rparr> = ''15:04:09'' \<and>
   (\<not> ANDROID e \<and> \<not> handled e r \<longrightarrow>
      written k (trace (final (LogDetailed_dtor e now r st))) =
        written k (trace st) @
        (if may_lock e st \<and> sink_good st \<and> k = active_sink st
         then ''['' @ time_buffer now @ ''|'' @ spec_label (log_level r) @ ''] '' @ s_str r @
              '' ('' @ caller_filename r @ '':'' @ dec (caller_filenumber r) @ '')'' @ newline
         else []))"
proof -
  have fits: "strftime 10 ''%I:%M:%S'' t = Some (time_buffer t)"
    by (simp add: strftime_fits time_buffer_eq)
  have shape: "time_buffer t =
     two_digits (hour12 (tm_hour t)) @ '':'' @ two_digits (tm_min t) @ '':'' @
     two_digits (tm_sec t)"
    by (rule time_buffer_eq)
  have field: "take 2 (time_buffer u) = two_digits (hour12 (tm_hour u))" for u
    by (simp add: time_buffer_eq two_digits_def)
  have hours: "map (\<lambda>h. two_digits (hour12 h)) [0..<24] =
     [''12'', ''01'', ''02'', ''03'', ''04'', ''05'', ''06'', ''07'', ''08'', ''09'', ''10'', ''11'',
      ''12'', ''01'', ''02'', ''03'', ''04'', ''05'', ''06'', ''07'', ''08'', ''09'', ''10'', ''11'']"
    by code_simp
  have day: "map (\<lambda>h. take 2 (time_buffer (t\<lparr>tm_hour := h\<rparr>))) [0..<24] =
     [''12'', ''01'', ''02'', ''03'', ''04'', ''05'', ''06'', ''07'', ''08'', ''09'', ''10'', ''11'',
      ''12'', ''01'', ''02'', ''03'', ''04'', ''05'', ''06'', ''07'', ''08'', ''09'', ''10'', ''11'']"
    unfolding field using hours by simp
  have range: "1 \<le> hour12 (tm_hour t) \<and> hour12 (tm_hour t) \<le> 12"
    by (simp add: hour12_def)
  have table: "\<forall>m \<in> set [0..<12]. two_digits (if m = 0 then 12 else m) \<in>
     set [''01'', ''02'', ''03'', ''04'', ''05'', ''06'', ''07'', ''08'', ''09'', ''10'', ''11'', ''12'']"
    by code_simp
  have "tm_hour t mod 12 \<in> set [0..<12]" by simp
  with table have "two_digits (hour12 (tm_hour t)) \<in>
     set [''01'', ''02'', ''03'', ''04'', ''05'', ''06'', ''07'', ''08'', ''09'', ''10'', ''11'', ''12'']"
    unfolding hour12_def by (rule bspec)
  then have texts: "take 2 (time_buffer t) \<in>
     set [''01'', ''02'', ''03'', ''04'', ''05'', ''06'', ''07'', ''08'', ''09'', ''10'', ''11'', ''12'']"
    unfolding field .
  have same: "time_buffer (t\<lparr>tm_hour := tm_hour t + 12\<rparr>) = time_buffer t"
    by (simp add: time_buffer_eq hour12_def)
  have examples: "time_buffer \<lparr>tm_hour = 15, tm_min = 4, tm_sec = 9\<rparr> = ''03:04:09''"
    "time_buffer \<lparr>tm_hour = 3, tm_min = 4, tm_sec = 9\<rparr> = ''03:04:09''"
    "time_buffer \<lparr>tm_hour = 0, tm_min = 0, tm_sec = 0\<rparr> = ''12:00:00''"
    "strftime_format ''%H:%M:%S'' \<lparr>tm_hour = 15, tm_min = 4, tm_sec = 9\<rparr> = ''15:04:09''"
    by (simp_all add: time_buffer_eq hour12_def two_digits_def digit_def)
  have line: "written k (trace (final (LogDetailed_dtor e now r st))) =
        written k (trace st) @
        (if may_lock e st \<and> sink_good st \<and> k = active_sink st
         then ''['' @ time_buffer now @ ''|'' @ spec_label (log_level r) @ ''] '' @ s_str r @
              '' ('' @ caller_filename r @ '':'' @ dec (caller_filenumber r) @ '')'' @ newline
         else [])"
    if "\<not> ANDROID e \<and> \<not> handled e r"
    using that dtor_written [of e r k now st] by (simp add: spec_line_def)
  then have line': "\<not> ANDROID e \<and> \<not> handled e r \<longrightarrow>
      written k (trace (final (LogDetailed_dtor e now r st))) =
        written k (trace st) @
        (if may_lock e st \<and> sink_good st \<and> k = active_sink st
         then ''['' @ time_buffer now @ ''|'' @ spec_label (log_level r) @ ''] '' @ s_str r @
              '' ('' @ caller_filename r @ '':'' @ dec (caller_filenumber r) @ '')'' @ newline
         else [])"
    by (rule impI)
  show ?thesis
    by (intro conjI)
       (rule fits shape day range [THEN conjunct1] range [THEN conjunct2] texts same examples
          line')+
qed

theorem C10_witness:
  "\<not> ANDROID tolerant \<and>
   \<not> handled tolerant (shift (LogInfoDetailed ''engine.cpp'' 42) ''starting'') \<and>
   written Console (trace (final (LogDetailed_dtor tolerant
     \<lparr>tm_hour = 15, tm_min = 4, tm_sec = 9\<rparr>
     (shift (LogInfoDetailed ''engine.cpp'' 42) ''starting'') (boot\<lparr>mutex_held := True\<rparr>)))) =
     ''[03:04:09|Info ] starting (engine.cpp:42)'' @ newline \<and>
   written Console (trace (final (LogDetailed_dtor tolerant
     \<lparr>tm_hour = 3, tm_min = 4, tm_sec = 9\<rparr>
     (shift (LogInfoDetailed ''engine.cpp'' 42) ''starting'') (boot\<lparr>mutex_held := True\<rparr>)))) =
     ''[03:04:09|Info ] starting (engine.cpp:42)'' @ newline"
proof -
  let ?r = "shift (LogInfoDetailed ''engine.cpp'' 42) ''starting''"
  let ?st = "boot\<lparr>mutex_held := True\<rparr>"
  have pre: "\<not> ANDROID tolerant \<and> \<not> handled tolerant ?r"
    by (simp add: tolerant_def linux_def handled_def)
  have good: "may_lock tolerant ?st" "sink_good ?st" "active_sink ?st = Console" "trace ?st = []"
    by (simp_all add: may_lock_def tolerant_def linux_def sink_good_def active_sink_def
        boot_def is_open_def)
  have fields: "log_level ?r = Info" "s_str ?r = ''starting''"
    "caller_filename ?r = ''engine.cpp''" "caller_filenumber ?r = 42"
    by (simp_all add: shift_def LogInfoDetailed_def LogDetailed_ctor_def)
  have texts: "time_buffer \<lparr>tm_hour = 15, tm_min = 4, tm_sec = 9\<rparr> = ''03:04:09''"
    "time_buffer \<lparr>tm_hour = 3, tm_min = 4, tm_sec = 9\<rparr> = ''03:04:09''"
    "dec 42 = ''42''" "spec_label Info = ''Info ''"
    by (simp_all add: eval_defs)
  note line = C10_twelve_hour_clock [THEN conjunct2, THEN conjunct2, THEN conjunct2,
      THEN conjunct2, THEN conjunct2, THEN conjunct2, THEN conjunct2, THEN conjunct2,
      THEN conjunct2, THEN conjunct2, THEN conjunct2, THEN mp, OF pre]
  have pm: "written Console (trace (final (LogDetailed_dtor tolerant
     \<lparr>tm_hour = 15, tm_min = 4, tm_sec = 9\<rparr> ?r ?st))) =
     ''[03:04:09|Info ] starting (engine.cpp:42)'' @ newline"
    using line [of Console "\<lparr>tm_hour = 15, tm_min = 4, tm_sec = 9\<rparr>" ?st]
    unfolding fields texts by (simp add: good)
  have am: "written Console (trace (final (LogDetailed_dtor tolerant
     \<lparr>tm_hour = 3, tm_min = 4, tm_sec = 9\<rparr> ?r ?st))) =
     ''[03:04:09|Info ] starting (engine.cpp:42)'' @ newline"
    using line [of Console "\<lparr>tm_hour = 3, tm_min = 4, tm_sec = 9\<rparr>" ?st]
    unfolding fields texts by (simp add: good)
  show ?thesis
    by (intro conjI) (rule pre [THEN conjunct1] pre [THEN conjunct2] pm am)+
qed

end
